theory Spec2Isabelle
  imports Complex_Main
begin

section \<open>PyAppleSerialChecker: data model\<close>

text \<open>
  The script (PyAppleSerialChecker.py) reads a list of serial numbers, and for each one
  acquires an authentication token, fetches and solves captchas, posts a coverage query,
  classifies the response body by marker substrings and appends one result row to the
  output sheet. This theory embeds the script's control flow (lines 280-530) over an
  explicit world: the replies of the remote service are scripts consumed in order, and
  every outward action is written to a log.
\<close>

subsection \<open>Byte strings and the \<open>in\<close> test\<close>

text \<open>
  Response bodies are byte strings; \<open>b"marker" in response.content\<close> is the substring
  test of Python.
\<close>

fun startswith :: "string \<Rightarrow> string \<Rightarrow> bool" where
  "startswith [] s = True"
| "startswith (p # ps) [] = False"
| "startswith (p # ps) (c # cs) = (p = c \<and> startswith ps cs)"

fun bytes_in :: "string \<Rightarrow> string \<Rightarrow> bool" where
  "bytes_in needle [] = (needle = [])"
| "bytes_in needle (c # cs) = (startswith needle (c # cs) \<or> bytes_in needle cs)"

subsection \<open>Result rows (class Head, RESULT\_ENTRY)\<close>

record result_entry =
  serial_number :: string
  product_name :: string
  purchase_date :: string
  coverage_expiry :: string
  status :: string

text \<open>\<open>Head.Status.not_found\<close> and \<open>Head.Status.valid\<close> (lines 138-139).\<close>

definition not_found :: string where
  "not_found = ''NOT_FOUND''"

definition valid :: string where
  "valid = ''VALID''"

subsection \<open>Regular expressions of the coverage-detail branch\<close>

text \<open>
  The four patterns of lines 471-474 are sequences of quantified single-character
  classes. \<open>match_items\<close> is the backtracking matcher of Python's \<open>re\<close> on such a sequence
  at a fixed start position: every quantifier is greedy, so the longest repetition is
  tried first and shorter ones after it; the result is the length of the match.
  \<open>re_search\<close> tries the start positions from left to right and returns group 0 of the
  first match.

  The decoded body is a Python \<open>str\<close>. Characters are modelled as bytes, which is exact
  for ASCII bodies (\<open>decode("utf-8", errors="ignore")\<close> is then the identity, and
  \<open>\s\<close>, \<open>\w\<close>, \<open>\d\<close> are the ASCII classes below; Python counts the separators
  0x1c-0x1f as whitespace). Statements about extracted fields are made for ASCII bodies.
\<close>

datatype cls = Lit char | NotLit char | SpaceC | WordC | DigitC | UpperC

definition isspace :: "char \<Rightarrow> bool" where
  "isspace c = (let n = (of_char c :: nat) in (9 \<le> n \<and> n \<le> 13) \<or> (28 \<le> n \<and> n \<le> 32))"

definition isdigit :: "char \<Rightarrow> bool" where
  "isdigit c = (let n = (of_char c :: nat) in 48 \<le> n \<and> n \<le> 57)"

definition isupper :: "char \<Rightarrow> bool" where
  "isupper c = (let n = (of_char c :: nat) in 65 \<le> n \<and> n \<le> 90)"

definition isword :: "char \<Rightarrow> bool" where
  "isword c = (let n = (of_char c :: nat) in
     (48 \<le> n \<and> n \<le> 57) \<or> (65 \<le> n \<and> n \<le> 90) \<or> n = 95 \<or> (97 \<le> n \<and> n \<le> 122))"

fun cls_match :: "cls \<Rightarrow> char \<Rightarrow> bool" where
  "cls_match (Lit a) c = (c = a)"
| "cls_match (NotLit a) c = (c \<noteq> a)"
| "cls_match SpaceC c = isspace c"
| "cls_match WordC c = isword c"
| "cls_match DigitC c = isdigit c"
| "cls_match UpperC c = isupper c"

text \<open>\<open>Rep c lo hi\<close>: class \<open>c\<close> repeated at least \<open>lo\<close> and at most \<open>hi\<close> times.\<close>

datatype item = Rep cls nat "nat option"

fun first_some :: "'a option list \<Rightarrow> 'a option" where
  "first_some [] = None"
| "first_some (Some x # xs) = Some x"
| "first_some (None # xs) = first_some xs"

fun match_items :: "item list \<Rightarrow> string \<Rightarrow> nat option" where
  "match_items [] s = Some 0"
| "match_items (Rep c lo hi # rest) s =
     (let avail = length (takeWhile (cls_match c) s);
          k = (case hi of None \<Rightarrow> avail | Some h \<Rightarrow> min h avail)
      in first_some
           (map (\<lambda>j. map_option (\<lambda>n. j + n) (match_items rest (drop j s)))
                (rev [lo..<Suc k])))"

fun re_search :: "item list \<Rightarrow> string \<Rightarrow> string option" where
  "re_search items [] =
     (case match_items items [] of Some n \<Rightarrow> Some [] | None \<Rightarrow> None)"
| "re_search items (c # cs) =
     (case match_items items (c # cs) of
        Some n \<Rightarrow> Some (take n (c # cs))
      | None \<Rightarrow> re_search items cs)"

definition lit :: "string \<Rightarrow> item list" where
  "lit s = map (\<lambda>c. Rep (Lit c) 1 (Some 1)) s"

definition star :: "cls \<Rightarrow> item" where
  "star c = Rep c 0 None"

definition plus :: "cls \<Rightarrow> item" where
  "plus c = Rep c 1 None"

definition times :: "cls \<Rightarrow> nat \<Rightarrow> item" where
  "times c n = Rep c n (Some n)"

definition dquote :: char where
  "dquote = CHR 0x22"

text \<open>\<open>r"MacBook\s+[^\)]*\s*\([^\)]*\)"\<close>\<close>

definition PRODUCT_NAME_PATTERN :: "item list" where
  "PRODUCT_NAME_PATTERN =
     lit ''MacBook'' @ [plus SpaceC, star (NotLit (CHR '')'')), star SpaceC] @ lit ''(''
       @ [star (NotLit (CHR '')''))] @ lit '')''"

text \<open>\<open>r"([A-Z]{1,2}\d{10})"\<close>\<close>

definition SERIAL_NUMBER_PATTERN :: "item list" where
  "SERIAL_NUMBER_PATTERN = [Rep UpperC 1 (Some 2), times DigitC 10]"

text \<open>\<open>r"(\w+\s\d{4})"\<close>\<close>

definition PURCHASE_DATE_PATTERN :: "item list" where
  "PURCHASE_DATE_PATTERN = [plus WordC, times SpaceC 1, times DigitC 4]"

text \<open>\<open>r'Expires on\s*:\s*([^"]+)'\<close>\<close>

definition COVERAGE_EXPIRY_PATTERN :: "item list" where
  "COVERAGE_EXPIRY_PATTERN =
     lit ''Expires on'' @ [star SpaceC] @ lit '':'' @ [star SpaceC, plus (NotLit dquote)]"

text \<open>\<open>str.strip()\<close> removes whitespace at both ends.\<close>

definition strip :: "string \<Rightarrow> string" where
  "strip s = rev (dropWhile isspace (rev (dropWhile isspace s)))"

text \<open>
  \<open>get_match_or_default\<close> (lines 481-494): \<open>match.group(0).strip() if match else default\<close>.
  A match object is always true, so the default is taken exactly when the search failed.
\<close>

definition get_match_or_default :: "string option \<Rightarrow> string \<Rightarrow> string" where
  "get_match_or_default m dflt =
     (case m of Some g \<Rightarrow> strip g | None \<Rightarrow> dflt)"



subsection \<open>Backoff (lines 280-289)\<close>

text \<open>
  \<open>wait_time = min(60, 2**retry_attempt)\<close>; a negative exponent gives a float below 1
  in Python. \<open>random_wait\<close> is the sleeping time for the value \<open>jitter\<close> drawn by
  \<open>random.uniform(0.5, 1.5)\<close>, which lies between the two bounds.
\<close>

definition wait_time :: "int \<Rightarrow> real" where
  "wait_time retry_attempt =
     min 60 (if 0 \<le> retry_attempt then 2 ^ nat retry_attempt
             else 1 / 2 ^ nat (- retry_attempt))"

definition random_wait :: "real \<Rightarrow> int \<Rightarrow> real" where
  "random_wait jitter retry_attempt = jitter * wait_time retry_attempt"

section \<open>The world of the script\<close>

text \<open>
  The remote service and the OCR reader are outside the script. Their replies are given
  as three scripts, each consumed from the front by the call that receives the reply:
  \<open>tokens\<close> for \<open>get_auth_token\<close> (\<open>None\<close>: the header is missing), \<open>captchas\<close> for
  \<open>fetch_captcha\<close>, \<open>queries\<close> for the coverage POST of line 386. A call that finds its
  script empty halts the run as \<open>Pending\<close>: the run has not finished within the replies
  given. The model covers runs in which every HTTP call returns a response.

  A captcha response is its raw \<open>content\<close> (tested for the rate-limit marker) and its
  \<open>payload\<close>, what lines 346-355 make of that content: \<open>Malformed\<close> when decoding raises
  (\<open>json.loads\<close> on a body that is not JSON), \<open>NoBinaryValue\<close> for JSON without the key
  \<open>binaryValue\<close>, \<open>BinaryValue texts\<close> with the texts that \<open>reader.readtext\<close> returns for
  the image, best first.
\<close>

type_synonym token = string

datatype captcha_payload = Malformed | NoBinaryValue | BinaryValue "string list"

record captcha_response =
  content :: string
  payload :: captcha_payload

text \<open>
  The log: \<open>TokenRequest r\<close> a call of \<open>get_auth_token\<close> and its result, \<open>CaptchaFetch t\<close>
  a call of \<open>fetch_captcha\<close> with token \<open>t\<close>, \<open>Backoff n\<close> a call of
  \<open>exponential_backoff(n)\<close>, \<open>CoverageQuery t answer serial\<close> the POST of line 386,
  \<open>InvalidCaptcha n\<close> the message of lines 399-402 with the counter it prints.
\<close>

datatype event =
    TokenRequest "token option"
  | CaptchaFetch token
  | Backoff int
  | CoverageQuery token string string
  | InvalidCaptcha nat

record world =
  tokens :: "token option list"
  captchas :: "captcha_response list"
  queries :: "string list"
  log :: "event list"
  rows :: "result_entry list"

text \<open>
  How a computation ends: \<open>Next v w\<close> returns \<open>v\<close> in world \<open>w\<close>; \<open>Halt h w\<close> stops the
  whole process in world \<open>w\<close>, by \<open>sys.exit(n)\<close>, by an uncaught exception, or because
  the scripts ran out.
\<close>

datatype halt = Pending | SysExit int | Uncaught

datatype 'a flow = Next 'a world | Halt halt world

definition get_auth_token :: "world \<Rightarrow> token option flow" where
  "get_auth_token w =
     (case tokens w of
        [] \<Rightarrow> Halt Pending w
      | t # ts \<Rightarrow> Next t (w\<lparr>tokens := ts, log := log w @ [TokenRequest t]\<rparr>))"

definition fetch_captcha :: "token \<Rightarrow> world \<Rightarrow> captcha_response flow" where
  "fetch_captcha captcha_auth_token w =
     (case captchas w of
        [] \<Rightarrow> Halt Pending w
      | r # rs \<Rightarrow> Next r (w\<lparr>captchas := rs, log := log w @ [CaptchaFetch captcha_auth_token]\<rparr>))"

definition post_coverage :: "token \<Rightarrow> string \<Rightarrow> string \<Rightarrow> world \<Rightarrow> string flow" where
  "post_coverage auth_token captcha_answer serial w =
     (case queries w of
        [] \<Rightarrow> Halt Pending w
      | b # bs \<Rightarrow>
          Next b (w\<lparr>queries := bs,
                    log := log w @ [CoverageQuery auth_token captcha_answer serial]\<rparr>))"

text \<open>The sleep of \<open>exponential_backoff\<close> lasts \<open>random_wait jitter retry_attempt\<close> seconds.\<close>

definition exponential_backoff :: "int \<Rightarrow> world \<Rightarrow> world" where
  "exponential_backoff retry_attempt w = w\<lparr>log := log w @ [Backoff retry_attempt]\<rparr>"

text \<open>Lines 522-529: the row is written below the last row of the sheet.\<close>

definition append_result :: "result_entry \<Rightarrow> world \<Rightarrow> world" where
  "append_result r w = w\<lparr>rows := rows w @ [r]\<rparr>"

section \<open>The captcha loop (lines 334-364)\<close>

text \<open>
  \<open>for attempt in range(3)\<close>: the first argument is the list of values \<open>attempt\<close> has
  still to take. The result is \<open>Some CAPTCHA_ANSWER\<close> after \<open>break\<close> and \<open>None\<close> when the
  loop ran to its end (\<open>CAPTCHA_FETCHED\<close> is still false).
\<close>

definition captcha_rate_marker :: string where
  "captcha_rate_marker = ''but we are currently unable to process''"

fun captcha_attempts :: "nat list \<Rightarrow> token \<Rightarrow> world \<Rightarrow> string option flow" where
  "captcha_attempts [] auth_token w = Next None w"
| "captcha_attempts (attempt # later) auth_token w =
     (case fetch_captcha auth_token w of
        Halt h w1 \<Rightarrow> Halt h w1
      | Next response w1 \<Rightarrow>
          if bytes_in captcha_rate_marker (content response)
          then captcha_attempts later auth_token (exponential_backoff 1 w1)
          else (case payload response of
                  Malformed \<Rightarrow> Halt Uncaught w1
                | NoBinaryValue \<Rightarrow> captcha_attempts later auth_token w1
                | BinaryValue result \<Rightarrow>
                    (case result of
                       [] \<Rightarrow> captcha_attempts later auth_token w1
                     | answer # _ \<Rightarrow> Next (Some answer) w1)))"

section \<open>Classification of the coverage response (lines 388-520)\<close>

definition m_rate :: string where
  "m_rate = ''process your request.''"

definition m_mismatch :: string where
  "m_mismatch = ''The code you entered does not match''"

definition m_invalid_serial :: string where
  "m_invalid_serial = ''Please enter a valid serial number.''"

definition m_sign_in :: string where
  "m_sign_in = ''Sign in to update purchase date''"

definition m_benefits :: string where
  "m_benefits = ''Your coverage includes the following benefits''"

definition m_expired :: string where
  "m_expired = ''Coverage Expired''"

definition m_cannot_process :: string where
  "m_cannot_process = ''We cannot process your request at this time.''"

definition m_detail :: string where
  "m_detail = ''Apple coverage for your product''"

text \<open>The branch of the \<open>if\<close> chain that a body takes, in the order of the source.\<close>

datatype outcome =
    RateLimited | CaptchaInvalid | IdentifierInvalid | PurchaseDateUnverifiable
  | CoverageBenefits | RequestRejected | CoverageDetail | Unknown

definition classify :: "string \<Rightarrow> outcome" where
  "classify body =
     (if bytes_in m_rate body then RateLimited
      else if bytes_in m_mismatch body then CaptchaInvalid
      else if bytes_in m_invalid_serial body then IdentifierInvalid
      else if bytes_in m_sign_in body then PurchaseDateUnverifiable
      else if bytes_in m_benefits body \<or> bytes_in m_expired body then CoverageBenefits
      else if bytes_in m_cannot_process body then RequestRejected
      else if bytes_in m_detail body then CoverageDetail
      else Unknown)"

definition na_entry :: "string \<Rightarrow> string \<Rightarrow> result_entry" where
  "na_entry serial st =
     \<lparr>serial_number = serial, product_name = ''N/A'', purchase_date = ''N/A'',
      coverage_expiry = ''N/A'', status = st\<rparr>"

text \<open>Lines 467-509. The serial number found in the body is computed and not used.\<close>

definition detail_entry :: "string \<Rightarrow> string \<Rightarrow> result_entry" where
  "detail_entry serial decoded_data =
     (let product_name_match = re_search PRODUCT_NAME_PATTERN decoded_data;
          serial_number_match = re_search SERIAL_NUMBER_PATTERN decoded_data;
          purchase_date_match = re_search PURCHASE_DATE_PATTERN decoded_data;
          coverage_expiry_match = re_search COVERAGE_EXPIRY_PATTERN decoded_data
      in \<lparr>serial_number = serial,
          product_name = get_match_or_default product_name_match not_found,
          purchase_date = get_match_or_default purchase_date_match not_found,
          coverage_expiry = get_match_or_default coverage_expiry_match not_found,
          status = valid\<rparr>)"

text \<open>
  One pass of \<open>while True\<close> ends with \<open>continue\<close>, carrying the token and
  \<open>CAPTCHA_INVALID_COUNT\<close> into the next pass, or with \<open>break\<close> and the row.
\<close>

datatype iter = Continue token nat | Break result_entry

definition respond :: "string \<Rightarrow> token \<Rightarrow> nat \<Rightarrow> string \<Rightarrow> world \<Rightarrow> iter flow" where
  "respond serial auth_token count body w =
     (case classify body of
        RateLimited \<Rightarrow> Next (Continue auth_token count) (exponential_backoff 1 w)
      | CaptchaInvalid \<Rightarrow>
          (let count1 = count + 1;
               w1 = w\<lparr>log := log w @ [InvalidCaptcha count1]\<rparr>
           in if count1 \<ge> 6
              then (case get_auth_token w1 of
                      Halt h w2 \<Rightarrow> Halt h w2
                    | Next None w2 \<Rightarrow> Halt (SysExit 0) w2
                    | Next (Some t) w2 \<Rightarrow> Next (Continue t 0) w2)
              else Next (Continue auth_token count1) w1)
      | IdentifierInvalid \<Rightarrow> Next (Break (na_entry serial ''Invalid'')) w
      | PurchaseDateUnverifiable \<Rightarrow>
          Next (Break (na_entry serial ''Cannot verify purchase date'')) w
      | CoverageBenefits \<Rightarrow> Next (Break (na_entry serial ''Fully valid'')) w
      | RequestRejected \<Rightarrow> Next (Break (na_entry serial ''Cannot process request'')) w
      | CoverageDetail \<Rightarrow> Next (Break (detail_entry serial body)) w
      | Unknown \<Rightarrow> Next (Break (na_entry serial ''Unknown'')) w)"

section \<open>The loops (lines 320-530)\<close>

text \<open>The body of \<open>while True\<close> (lines 330-520).\<close>

definition loop_body :: "string \<Rightarrow> token \<Rightarrow> nat \<Rightarrow> world \<Rightarrow> iter flow" where
  "loop_body serial auth_token count w =
     (case captcha_attempts [0, 1, 2] auth_token w of
        Halt h w1 \<Rightarrow> Halt h w1
      | Next None w1 \<Rightarrow>
          (case get_auth_token w1 of
             Halt h w2 \<Rightarrow> Halt h w2
           | Next None w2 \<Rightarrow> Halt (SysExit 0) w2
           | Next (Some t) w2 \<Rightarrow> Next (Continue t count) w2)
      | Next (Some captcha_answer) w1 \<Rightarrow>
          (case post_coverage auth_token captcha_answer serial w1 of
             Halt h w2 \<Rightarrow> Halt h w2
           | Next body w2 \<Rightarrow> respond serial auth_token count body w2))"

text \<open>
  Every pass of \<open>while True\<close> fetches at least one captcha, so the loop ends when the
  script of captcha responses does.
\<close>

lemma get_auth_token_captchas:
  "get_auth_token w = Next r w' \<Longrightarrow> captchas w' = captchas w"
  by (auto simp: get_auth_token_def split: list.splits)

lemma post_coverage_captchas:
  "post_coverage t a s w = Next r w' \<Longrightarrow> captchas w' = captchas w"
  by (auto simp: post_coverage_def split: list.splits)

lemma exponential_backoff_captchas:
  "captchas (exponential_backoff n w) = captchas w"
  by (simp add: exponential_backoff_def)

lemma fetch_captcha_captchas:
  "fetch_captcha t w = Next r w' \<Longrightarrow> length (captchas w') < length (captchas w)"
  by (auto simp: fetch_captcha_def split: list.splits)

lemma captcha_attempts_le:
  "captcha_attempts xs t w = Next r w' \<Longrightarrow> length (captchas w') \<le> length (captchas w)"
proof (induction xs arbitrary: w)
  case Nil
  then show ?case by simp
next
  case (Cons a xs)
  then show ?case
    by (fastforce simp: exponential_backoff_captchas
        split: flow.splits if_splits captcha_payload.splits list.splits
        dest!: fetch_captcha_captchas)
qed

lemma captcha_attempts_less:
  assumes "captcha_attempts (a # xs) t w = Next r w'"
  shows "length (captchas w') < length (captchas w)"
proof (cases "fetch_captcha t w")
  case (Halt h w1)
  with assms show ?thesis by simp
next
  case (Next resp w1)
  then have lt: "length (captchas w1) < length (captchas w)"
    by (rule fetch_captcha_captchas)
  have "length (captchas w') \<le> length (captchas w1)"
    using assms Next captcha_attempts_le [of xs t w1 r w']
      captcha_attempts_le [of xs t "exponential_backoff 1 w1" r w']
    by (auto simp: exponential_backoff_captchas
        split: if_splits captcha_payload.splits list.splits)
  with lt show ?thesis by simp
qed

lemma respond_captchas:
  "respond s t c b w = Next r w' \<Longrightarrow> captchas w' = captchas w"
  by (auto simp: respond_def Let_def exponential_backoff_captchas
      split: outcome.splits if_splits flow.splits option.splits
      dest!: get_auth_token_captchas)

lemma loop_body_captchas:
  assumes "loop_body s t c w = Next r w'"
  shows "length (captchas w') < length (captchas w)"
proof (cases "captcha_attempts [0, 1, 2] t w")
  case (Halt h w1)
  with assms show ?thesis by (simp add: loop_body_def)
next
  case (Next a w1)
  then have lt: "length (captchas w1) < length (captchas w)"
    by (rule captcha_attempts_less)
  have "captchas w' = captchas w1"
    using assms Next unfolding loop_body_def
    by (auto simp del: captcha_attempts.simps split: option.splits flow.splits
        dest!: get_auth_token_captchas post_coverage_captchas respond_captchas)
  with lt show ?thesis by simp
qed

text \<open>\<open>while True\<close> (lines 329-520): the row it leaves in \<open>RESULT_ENTRY\<close>.\<close>

function while_loop :: "string \<Rightarrow> token \<Rightarrow> nat \<Rightarrow> world \<Rightarrow> result_entry flow" where
  "while_loop serial auth_token count w =
     (case loop_body serial auth_token count w of
        Halt h w1 \<Rightarrow> Halt h w1
      | Next (Break entry) w1 \<Rightarrow> Next entry w1
      | Next (Continue t c) w1 \<Rightarrow> while_loop serial t c w1)"
  by pat_completeness auto
termination
  by (relation "measure (\<lambda>(s, t, c, w). length (captchas w))")
     (auto dest: loop_body_captchas)

declare while_loop.simps [simp del]

text \<open>\<open>for serial_number in serial_numbers\<close> (lines 320-529).\<close>

fun main_loop :: "string list \<Rightarrow> world \<Rightarrow> unit flow" where
  "main_loop [] w = Next () w"
| "main_loop (serial # rest) w =
     (case get_auth_token w of
        Halt h w1 \<Rightarrow> Halt h w1
      | Next None w1 \<Rightarrow> Halt (SysExit 0) w1
      | Next (Some auth_token) w1 \<Rightarrow>
          (case while_loop serial auth_token 0 w1 of
             Halt h w2 \<Rightarrow> Halt h w2
           | Next entry w2 \<Rightarrow> main_loop rest (append_result entry w2)))"

text \<open>
  The script from line 298 on, for the list that \<open>load_serial_numbers\<close> returned:
  \<open>sys.exit(0)\<close> on an empty list, the main loop otherwise; falling off the end of the
  script ends the process normally.
\<close>

definition program :: "string list \<Rightarrow> world \<Rightarrow> unit flow" where
  "program serial_numbers w =
     (if serial_numbers = [] then Halt (SysExit 0) w else main_loop serial_numbers w)"

text \<open>
  The exit status of the process: the argument of \<open>sys.exit\<close>, 0 after normal
  completion, 1 after an uncaught exception; none while the run is pending.
\<close>

fun exit_status :: "'a flow \<Rightarrow> int option" where
  "exit_status (Next v w) = Some 0"
| "exit_status (Halt (SysExit n) w) = Some n"
| "exit_status (Halt Uncaught w) = Some 1"
| "exit_status (Halt Pending w) = None"

fun world_of :: "'a flow \<Rightarrow> world" where
  "world_of (Next v w) = w"
| "world_of (Halt h w) = w"

text \<open>A world with the given replies, nothing logged and an empty sheet.\<close>

definition start :: "token option list \<Rightarrow> captcha_response list \<Rightarrow> string list \<Rightarrow> world" where
  "start ts cs qs = \<lparr>tokens = ts, captchas = cs, queries = qs, log = [], rows = []\<rparr>"

section \<open>The classification as the specification words it\<close>

text \<open>
  The specification (section 4.3) describes the classification as an ordered list of
  marker tests in which the first match wins, and \<open>Unknown\<close> when none matches. This
  definition follows those words; \<open>classify\<close> above follows the source.
\<close>

definition marker_priority :: "((string \<Rightarrow> bool) \<times> outcome) list" where
  "marker_priority =
     [(bytes_in m_rate, RateLimited),
      (bytes_in m_mismatch, CaptchaInvalid),
      (bytes_in m_invalid_serial, IdentifierInvalid),
      (bytes_in m_sign_in, PurchaseDateUnverifiable),
      (\<lambda>body. bytes_in m_benefits body \<or> bytes_in m_expired body, CoverageBenefits),
      (bytes_in m_cannot_process, RequestRejected),
      (bytes_in m_detail, CoverageDetail)]"

fun first_match :: "((string \<Rightarrow> bool) \<times> outcome) list \<Rightarrow> string \<Rightarrow> outcome" where
  "first_match [] body = Unknown"
| "first_match ((test, out) # rest) body = (if test body then out else first_match rest body)"

section \<open>Reading the log\<close>


fun fetch_tokens :: "event list \<Rightarrow> token list" where
  "fetch_tokens [] = []"
| "fetch_tokens (CaptchaFetch t # es) = t # fetch_tokens es"
| "fetch_tokens (e # es) = fetch_tokens es"


section \<open>Example inputs\<close>

text \<open>A body with the rate-limit marker and the coverage-detail marker.\<close>

definition both_markers_body :: string where
  "both_markers_body = ''Apple coverage for your product; we are unable to process your request.''"

text \<open>
  A body of the coverage-expired branch that also holds a product name and an expiry
  date, and a coverage-detail body that echoes a serial number.
\<close>

definition expired_body :: string where
  "expired_body = ''Coverage Expired. MacBook Pro (13-inch, 2020) Expires on: 2020-01-01''"

definition detail_body :: string where
  "detail_body = ''Apple coverage for your product AB1234567890''"

text \<open>
  Captcha responses: a JSON body with an image in which the reader finds the text
  \<open>abcd\<close>, one with an image in which it finds no text, and a body that is not JSON.
\<close>

definition captcha_json :: "string \<Rightarrow> string" where
  "captcha_json b64 =
     ''{'' @ [dquote] @ ''binaryValue'' @ [dquote] @ '': '' @ [dquote] @ b64 @ [dquote] @ ''}''"

definition solved :: captcha_response where
  "solved = \<lparr>content = captcha_json ''aW1hZ2UgYWJjZA=='', payload = BinaryValue [''abcd'']\<rparr>"

definition unreadable :: captcha_response where
  "unreadable = \<lparr>content = captcha_json ''YmxhbmsgaW1hZ2U='', payload = BinaryValue []\<rparr>"

definition not_json :: captcha_response where
  "not_json = \<lparr>content = ''<html>'', payload = Malformed\<rparr>"


definition three_unreadable :: world where
  "three_unreadable = start [Some ''T2''] [unreadable, unreadable, unreadable] []"

definition rate_limited_thrice :: world where
  "rate_limited_thrice =
     start [Some ''T''] [solved, solved, solved, solved]
       [m_rate, m_rate, m_rate, m_invalid_serial]"

definition mismatch_then_unreadable :: world where
  "mismatch_then_unreadable =
     start [Some ''T1'', Some ''T2'']
       [solved, unreadable, unreadable, unreadable, solved, solved]
       [m_mismatch, m_mismatch, m_invalid_serial]"



section \<open>Backoff\<close>

text \<open>
  C5, as it holds of the script.
  For every retry attempt \<open>n \<ge> 1\<close> and every jitter factor in
  \<open>[0.5, 1.5]\<close>, the delay is \<open>min(60, 2^n)\<close> seconds times the jitter factor, so it lies
  between half and one and a half times that base. For attempt 1 the base is 2 seconds
  and the delay lies in \<open>[1, 3]\<close>; for attempt 6, and every later one, the base is capped
  at 60 seconds.
\<close>

theorem backoff_delay:
  assumes "1 \<le> n" and "1 / 2 \<le> jitter" and "jitter \<le> 3 / 2"
  shows "random_wait jitter n = jitter * min 60 (2 ^ nat n)
       \<and> wait_time n / 2 \<le> random_wait jitter n
       \<and> random_wait jitter n \<le> 3 * wait_time n / 2
       \<and> wait_time 1 = 2 \<and> 1 \<le> random_wait jitter 1 \<and> random_wait jitter 1 \<le> 3
       \<and> wait_time 6 = 60 \<and> (6 \<le> n \<longrightarrow> wait_time n = 60)"
proof -
  have pos: "0 \<le> wait_time n" for n
    by (simp add: wait_time_def)
  have base: "wait_time n = min 60 (2 ^ nat n)"
    using assms(1) by (simp add: wait_time_def)
  have lo: "wait_time m / 2 \<le> random_wait jitter m" for m
    using mult_right_mono [OF assms(2) pos [of m]] by (simp add: random_wait_def)
  have hi: "random_wait jitter m \<le> 3 * wait_time m / 2" for m
    using mult_right_mono [OF assms(3) pos [of m]] by (simp add: random_wait_def)
  have one: "wait_time 1 = 2"
    by (simp add: wait_time_def)
  have six: "wait_time 6 = 60"
    by (simp add: wait_time_def)
  have cap: "wait_time n = 60" if "6 \<le> n"
  proof -
    have "(2::real) ^ 6 \<le> 2 ^ nat n"
      using that by (intro power_increasing) auto
    then show ?thesis
      using that by (simp add: wait_time_def)
  qed
  show ?thesis
    using base lo [of n] hi [of n] lo [of 1] hi [of 1] one six cap
    by (simp add: random_wait_def)
qed

theorem backoff_delay_witness:
  "(1::int) \<le> 3 \<and> (1::real) / 2 \<le> 1 \<and> (1::real) \<le> 3 / 2 \<and> random_wait 1 3 = 8
   \<and> wait_time 1 = 2 \<and> wait_time 6 = 60"
  using backoff_delay [of 3 1] by simp

text \<open>
  The delay for attempt 1 does not always lie in \<open>[0.5, 1.5]\<close>: with the jitter factor
  1.5 it is 3 seconds.
\<close>

theorem backoff_attempt_one_counterexample:
  "(1::real) / 2 \<le> 3 / 2 \<and> (3::real) / 2 \<le> 3 / 2 \<and> random_wait (3 / 2) 1 = 3
   \<and> \<not> random_wait (3 / 2) 1 \<le> 3 / 2"
  by (simp add: random_wait_def wait_time_def)

section \<open>Classification\<close>

text \<open>
  C2. The classification of the source is the first match in the ordered marker list;
  in particular a body that contains both the rate-limit marker and the coverage-detail
  marker is classified as \<open>RateLimited\<close>: the pass backs off and continues with the same
  token and counter, and no row is produced.
\<close>

theorem classification_priority:
  "classify body = first_match marker_priority body
   \<and> (bytes_in m_rate body \<and> bytes_in m_detail body \<longrightarrow>
        classify body = RateLimited
        \<and> respond serial tok count body w = Next (Continue tok count) (exponential_backoff 1 w))"
  by (simp add: classify_def marker_priority_def respond_def)

theorem classification_priority_witness:
  "bytes_in m_rate both_markers_body \<and> bytes_in m_detail both_markers_body
   \<and> classify both_markers_body = RateLimited
   \<and> first_match marker_priority both_markers_body = RateLimited
   \<and> respond ''S'' ''T'' 0 both_markers_body (start [] [] []) =
       Next (Continue ''T'' 0) (exponential_backoff 1 (start [] [] []))"
proof -
  have h: "bytes_in m_rate both_markers_body \<and> bytes_in m_detail both_markers_body"
    by code_simp
  from h classification_priority [of both_markers_body "''S''" "''T''" 0 "start [] [] []"]
  show ?thesis
    by auto
qed

section \<open>Terminal outcomes\<close>

lemma respond_serial:
  "respond serial tok count body w = Next (Break entry) w' \<Longrightarrow> serial_number entry = serial"
  by (auto simp: respond_def Let_def na_entry_def detail_entry_def
      split: outcome.splits if_splits flow.splits option.splits)

lemma loop_body_serial:
  "loop_body serial tok count w = Next (Break entry) w' \<Longrightarrow> serial_number entry = serial"
  unfolding loop_body_def
  by (auto simp del: captcha_attempts.simps split: flow.splits option.splits
      dest: respond_serial)

lemma while_loop_serial:
  "while_loop serial tok count w = Next entry w' \<Longrightarrow> serial_number entry = serial"
proof (induction serial tok count w rule: while_loop.induct)
  case (1 serial auth_token count w)
  show ?case
  proof (cases "loop_body serial auth_token count w")
    case (Halt h w1)
    with "1.prems" show ?thesis by (simp add: while_loop.simps)
  next
    case (Next it w1)
    show ?thesis
    proof (cases it)
      case (Break e)
      with Next "1.prems" have "e = entry" by (simp add: while_loop.simps)
      with Next Break show ?thesis by (auto dest: loop_body_serial)
    next
      case (Continue t c)
      with Next "1.prems" have "while_loop serial t c w1 = Next entry w'"
        by (simp add: while_loop.simps)
      with "1.IH" [OF Next Continue] show ?thesis .
    qed
  qed
qed

text \<open>
  C7. A body with the coverage-benefits or the coverage-expired marker, and none of the
  four markers tested before them, ends the pass with a row whose status is
  \<open>Fully valid\<close> and whose product name, purchase date and coverage expiry are all
  \<open>N/A\<close>: nothing is extracted from the body.
\<close>

theorem coverage_benefits_fully_valid:
  assumes "bytes_in m_benefits body \<or> bytes_in m_expired body"
    and "\<not> bytes_in m_rate body" and "\<not> bytes_in m_mismatch body"
    and "\<not> bytes_in m_invalid_serial body" and "\<not> bytes_in m_sign_in body"
  shows "respond serial tok count body w =
           Next (Break \<lparr>serial_number = serial, product_name = ''N/A'',
                         purchase_date = ''N/A'', coverage_expiry = ''N/A'',
                         status = ''Fully valid''\<rparr>) w"
  using assms by (simp add: respond_def classify_def na_entry_def)

theorem coverage_benefits_fully_valid_witness:
  "(bytes_in m_benefits expired_body \<or> bytes_in m_expired expired_body)
   \<and> \<not> bytes_in m_rate expired_body \<and> \<not> bytes_in m_mismatch expired_body
   \<and> \<not> bytes_in m_invalid_serial expired_body \<and> \<not> bytes_in m_sign_in expired_body
   \<and> respond ''S'' ''T'' 0 expired_body (start [] [] []) =
         Next (Break \<lparr>serial_number = ''S'', product_name = ''N/A'',
                       purchase_date = ''N/A'', coverage_expiry = ''N/A'',
                       status = ''Fully valid''\<rparr>) (start [] [] [])"
proof -
  have h1: "bytes_in m_benefits expired_body \<or> bytes_in m_expired expired_body"
    by code_simp
  have h2: "\<not> bytes_in m_rate expired_body" by code_simp
  have h3: "\<not> bytes_in m_mismatch expired_body" by code_simp
  have h4: "\<not> bytes_in m_invalid_serial expired_body" by code_simp
  have h5: "\<not> bytes_in m_sign_in expired_body" by code_simp
  from coverage_benefits_fully_valid [OF h1 h2 h3 h4 h5, of "''S''" "''T''" 0 "start [] [] []"]
    h1 h2 h3 h4 h5
  show ?thesis by simp
qed

text \<open>
  C9. Whatever the body and whichever branch ends the pass, the serial number of the
  row is the serial number being processed; the serial number that the coverage-detail
  body echoes is searched for and not used.
\<close>

theorem serial_number_is_input:
  "(respond serial tok count body w = Next (Break entry) w' \<longrightarrow> serial_number entry = serial)
   \<and> (while_loop serial tok count w = Next entry w' \<longrightarrow> serial_number entry = serial)"
  by (auto dest: respond_serial while_loop_serial)

theorem serial_number_is_input_witness:
  "respond ''XX0000000000'' ''T'' 0 detail_body (start [] [] []) =
     Next (Break (detail_entry ''XX0000000000'' detail_body)) (start [] [] [])
   \<and> re_search SERIAL_NUMBER_PATTERN detail_body = Some ''AB1234567890''
   \<and> serial_number (detail_entry ''XX0000000000'' detail_body) = ''XX0000000000''"
proof -
  have h: "respond ''XX0000000000'' ''T'' 0 detail_body (start [] [] []) =
     Next (Break (detail_entry ''XX0000000000'' detail_body)) (start [] [] [])"
    by code_simp
  have e: "re_search SERIAL_NUMBER_PATTERN detail_body = Some ''AB1234567890''"
    by code_simp
  from serial_number_is_input [of "''XX0000000000''" "''T''" 0 detail_body "start [] [] []"
      "detail_entry ''XX0000000000'' detail_body" "start [] [] []"] h e
  show ?thesis by simp
qed

section \<open>Rows of the output sheet\<close>

text \<open>Only \<open>append_result\<close> changes the sheet.\<close>

lemma get_auth_token_rows: "rows (world_of (get_auth_token w)) = rows w"
  by (simp add: get_auth_token_def split: list.splits)

lemma fetch_captcha_rows: "rows (world_of (fetch_captcha t w)) = rows w"
  by (simp add: fetch_captcha_def split: list.splits)

lemma post_coverage_rows: "rows (world_of (post_coverage t a s w)) = rows w"
  by (simp add: post_coverage_def split: list.splits)

lemma exponential_backoff_rows: "rows (exponential_backoff n w) = rows w"
  by (simp add: exponential_backoff_def)

lemma captcha_attempts_rows: "rows (world_of (captcha_attempts xs t w)) = rows w"
proof (induction xs arbitrary: w)
  case Nil
  show ?case by simp
next
  case (Cons a xs)
  show ?case
  proof (cases "fetch_captcha t w")
    case (Halt h w1)
    with fetch_captcha_rows [of t w] show ?thesis by simp
  next
    case (Next r w1)
    with fetch_captcha_rows [of t w] have "rows w1 = rows w" by simp
    with Next Cons.IH [of w1] Cons.IH [of "exponential_backoff 1 w1"] show ?thesis
      by (simp add: exponential_backoff_rows split: captcha_payload.splits list.splits)
  qed
qed

lemma get_auth_token_rows_Next: "get_auth_token w = Next r w' \<Longrightarrow> rows w' = rows w"
  using get_auth_token_rows [of w] by simp

lemma get_auth_token_rows_Halt: "get_auth_token w = Halt h w' \<Longrightarrow> rows w' = rows w"
  using get_auth_token_rows [of w] by simp

lemma respond_rows: "rows (world_of (respond s t c b w)) = rows w"
  by (auto simp: respond_def Let_def exponential_backoff_rows
      split: outcome.splits flow.splits option.splits
      dest!: get_auth_token_rows_Next get_auth_token_rows_Halt)

lemma loop_body_rows: "rows (world_of (loop_body s t c w)) = rows w"
proof (cases "captcha_attempts [0, 1, 2] t w")
  case (Halt h w1)
  with captcha_attempts_rows [of "[0, 1, 2]" t w] show ?thesis
    by (simp add: loop_body_def del: captcha_attempts.simps)
next
  case (Next a w1)
  with captcha_attempts_rows [of "[0, 1, 2]" t w] have w1: "rows w1 = rows w"
    by (simp del: captcha_attempts.simps)
  show ?thesis
  proof (cases a)
    case None
    with Next w1 get_auth_token_rows [of w1] show ?thesis
      by (auto simp: loop_body_def simp del: captcha_attempts.simps
          split: flow.splits option.splits)
  next
    case (Some ans)
    show ?thesis
    proof (cases "post_coverage t ans s w1")
      case (Halt h w2)
      with Next Some w1 post_coverage_rows [of t ans s w1] show ?thesis
        by (simp add: loop_body_def del: captcha_attempts.simps)
    next
      case (Next body w2)
      with post_coverage_rows [of t ans s w1] w1 have "rows w2 = rows w" by simp
      with Next \<open>captcha_attempts [0, 1, 2] t w = Next a w1\<close> Some
        respond_rows [of s t c body w2] show ?thesis
        by (simp add: loop_body_def del: captcha_attempts.simps)
    qed
  qed
qed

lemma while_loop_rows: "rows (world_of (while_loop s t c w)) = rows w"
proof (induction s t c w rule: while_loop.induct)
  case (1 serial auth_token count w)
  show ?case
  proof (cases "loop_body serial auth_token count w")
    case (Halt h w1)
    with loop_body_rows [of serial auth_token count w] show ?thesis
      by (simp add: while_loop.simps)
  next
    case (Next it w1)
    with loop_body_rows [of serial auth_token count w] have w1: "rows w1 = rows w"
      by simp
    show ?thesis
    proof (cases it)
      case (Break e)
      with Next w1 show ?thesis by (simp add: while_loop.simps)
    next
      case (Continue t c)
      with Next w1 "1.IH" [OF Next Continue] show ?thesis
        by (simp add: while_loop.simps)
    qed
  qed
qed

lemma main_loop_rows:
  "\<exists>new. rows (world_of (main_loop sns w)) = rows w @ new
         \<and> map serial_number new = take (length new) sns
         \<and> (\<forall>w'. main_loop sns w = Next () w' \<longrightarrow> map serial_number new = sns)"
proof (induction sns arbitrary: w)
  case Nil
  show ?case by simp
next
  case (Cons sn rest)
  show ?case
  proof (cases "get_auth_token w")
    case (Halt h w1)
    with get_auth_token_rows [of w] show ?thesis by simp
  next
    case (Next r w1)
    with get_auth_token_rows [of w] have w1: "rows w1 = rows w" by simp
    show ?thesis
    proof (cases r)
      case None
      with Next w1 show ?thesis by simp
    next
      case (Some tok)
      show ?thesis
      proof (cases "while_loop sn tok 0 w1")
        case (Halt h w2)
        with while_loop_rows [of sn tok 0 w1] w1 Next Some show ?thesis by simp
      next
        case (Next entry w2)
        with while_loop_rows [of sn tok 0 w1] w1 have w2: "rows w2 = rows w" by simp
        from Next have sn: "serial_number entry = sn" by (rule while_loop_serial)
        from Cons.IH [of "append_result entry w2"] obtain new where
          new: "rows (world_of (main_loop rest (append_result entry w2))) =
                  rows (append_result entry w2) @ new"
               "map serial_number new = take (length new) rest"
               "\<forall>w'. main_loop rest (append_result entry w2) = Next () w' \<longrightarrow>
                  map serial_number new = rest"
          by blast
        have step: "main_loop (sn # rest) w = main_loop rest (append_result entry w2)"
          using \<open>get_auth_token w = Next r w1\<close> Some Next by simp
        have "rows (world_of (main_loop (sn # rest) w)) = rows w @ (entry # new)"
          using step new(1) w2 by (simp add: append_result_def)
        moreover have "map serial_number (entry # new) = take (length (entry # new)) (sn # rest)"
          using sn new(2) by simp
        moreover have "\<forall>w'. main_loop (sn # rest) w = Next () w' \<longrightarrow>
            map serial_number (entry # new) = sn # rest"
          using step new(3) sn by simp
        ultimately show ?thesis by blast
      qed
    qed
  qed
qed

text \<open>
  C1, as it holds of the script.
  The rows that a run adds to the sheet are appended after the rows
  already there, one for each serial number of an initial part of the input and in the
  order of the input; when the run completes (the main loop reaches its end) there is
  exactly one row for every serial number of the input. A run that stops before, by
  \<open>sys.exit\<close>, by an exception or because it is still waiting for the service, leaves
  the remaining serial numbers without a row.
\<close>

theorem one_row_per_serial:
  "\<exists>new. rows (world_of (program sns w)) = rows w @ new
         \<and> map serial_number new = take (length new) sns
         \<and> (\<forall>w'. program sns w = Next () w' \<longrightarrow> map serial_number new = sns)"
proof (cases "sns = []")
  case True
  then show ?thesis by (simp add: program_def)
next
  case False
  with main_loop_rows [of sns w] show ?thesis by (simp add: program_def)
qed


theorem one_row_per_serial_witness:
  "program [''A'', ''B''] (start [Some ''T'', Some ''U''] [solved, solved] [m_invalid_serial, m_expired])
     = Next () (world_of (program [''A'', ''B'']
         (start [Some ''T'', Some ''U''] [solved, solved] [m_invalid_serial, m_expired])))
   \<and> map serial_number (rows (world_of (program [''A'', ''B'']
         (start [Some ''T'', Some ''U''] [solved, solved] [m_invalid_serial, m_expired]))))
     = [''A'', ''B'']"
proof -
  let ?w = "start [Some ''T'', Some ''U''] [solved, solved] [m_invalid_serial, m_expired]"
  have run: "program [''A'', ''B''] ?w = Next () (world_of (program [''A'', ''B''] ?w))"
    by code_simp
  from one_row_per_serial [of "[''A'', ''B'']" ?w] obtain new where
    n: "rows (world_of (program [''A'', ''B''] ?w)) = rows ?w @ new"
       "\<forall>w'. program [''A'', ''B''] ?w = Next () w' \<longrightarrow> map serial_number new = [''A'', ''B'']"
    by (elim exE conjE)
  from n(2) run have "map serial_number new = [''A'', ''B'']"
    by (elim allE impE)
  moreover have "rows ?w = []"
    by (simp add: start_def)
  ultimately show ?thesis
    using n(1) run by simp
qed

text \<open>
  A run on one serial number whose first token request fails exits with status 0 and
  has appended no row.
\<close>

theorem abort_leaves_serial_without_row:
  "exit_status (program [''A''] (start [None] [] [])) = Some 0
   \<and> rows (world_of (program [''A''] (start [None] [] []))) = []"
  by code_simp

section \<open>Exit status\<close>

lemma get_auth_token_no_exit: "get_auth_token w = Halt h w' \<Longrightarrow> h = Pending"
  by (auto simp: get_auth_token_def split: list.splits)

lemma fetch_captcha_no_exit: "fetch_captcha t w = Halt h w' \<Longrightarrow> h = Pending"
  by (auto simp: fetch_captcha_def split: list.splits)

lemma post_coverage_no_exit: "post_coverage t a s w = Halt h w' \<Longrightarrow> h = Pending"
  by (auto simp: post_coverage_def split: list.splits)

lemma captcha_attempts_no_exit: "captcha_attempts xs t w = Halt h w' \<Longrightarrow> h \<noteq> SysExit n"
proof (induction xs arbitrary: w)
  case Nil
  then show ?case by simp
next
  case (Cons a xs)
  then show ?case
    by (auto split: flow.splits if_splits captcha_payload.splits list.splits
        dest: fetch_captcha_no_exit)
qed

lemma respond_exit: "respond s t c b w = Halt (SysExit n) w' \<Longrightarrow> n = 0"
  by (auto simp: respond_def Let_def
      split: outcome.splits flow.splits option.splits if_splits
      dest: get_auth_token_no_exit)

lemma loop_body_exit: "loop_body s t c w = Halt (SysExit n) w' \<Longrightarrow> n = 0"
  unfolding loop_body_def
  by (auto simp del: captcha_attempts.simps split: flow.splits option.splits
      dest: captcha_attempts_no_exit get_auth_token_no_exit post_coverage_no_exit respond_exit)

lemma while_loop_exit: "while_loop s t c w = Halt (SysExit n) w' \<Longrightarrow> n = 0"
proof (induction s t c w rule: while_loop.induct)
  case (1 serial auth_token count w)
  show ?case
  proof (cases "loop_body serial auth_token count w")
    case (Halt h w1)
    with "1.prems" show ?thesis
      by (auto simp: while_loop.simps dest: loop_body_exit)
  next
    case (Next it w1)
    show ?thesis
    proof (cases it)
      case (Break e)
      with Next "1.prems" show ?thesis by (simp add: while_loop.simps)
    next
      case (Continue t c)
      with Next "1.prems" have "while_loop serial t c w1 = Halt (SysExit n) w'"
        by (simp add: while_loop.simps)
      with "1.IH" [OF Next Continue] show ?thesis .
    qed
  qed
qed

lemma main_loop_exit: "main_loop sns w = Halt (SysExit n) w' \<Longrightarrow> n = 0"
proof (induction sns arbitrary: w)
  case Nil
  then show ?case by simp
next
  case (Cons sn rest)
  then show ?case
    by (auto split: flow.splits option.splits
        dest: get_auth_token_no_exit while_loop_exit)
qed

lemma program_exit: "program sns w = Halt (SysExit n) w' \<Longrightarrow> n = 0"
  by (auto simp: program_def split: if_splits dest: main_loop_exit)

text \<open>
  C10, as it holds of the script.
  Every \<open>sys.exit\<close> that a run reaches has status 0, so a run that has
  ended has status 0 unless it ended with an uncaught exception; in particular the
  process exits with status 0 when no serial numbers were loaded and when the first
  token request finds no token.
\<close>

theorem exit_status_zero_unless_uncaught:
  "(exit_status (program sns w) = Some 0 \<or> exit_status (program sns w) = None
      \<or> (\<exists>w'. program sns w = Halt Uncaught w'))
   \<and> program [] w = Halt (SysExit 0) w
   \<and> exit_status (program (sn # rest) (w\<lparr>tokens := None # ts\<rparr>)) = Some 0"
proof -
  have "exit_status (program sns w) = Some 0 \<or> exit_status (program sns w) = None
      \<or> (\<exists>w'. program sns w = Halt Uncaught w')"
  proof (cases "program sns w")
    case (Next v w1)
    then show ?thesis by simp
  next
    case (Halt h w1)
    then show ?thesis
      by (cases h) (auto dest: program_exit)
  qed
  moreover have "program [] w = Halt (SysExit 0) w"
    by (simp add: program_def)
  moreover have "exit_status (program (sn # rest) (w\<lparr>tokens := None # ts\<rparr>)) = Some 0"
    by (simp add: program_def get_auth_token_def)
  ultimately show ?thesis by blast
qed

text \<open>
  A captcha response that is not JSON makes \<open>json.loads\<close> raise; nothing catches the
  exception and the process ends with status 1.
\<close>

theorem uncaught_exception_exit_status:
  "exit_status (program [''S''] (start [Some ''T''] [not_json] [])) = Some 1"
  by code_simp

section \<open>The invalid-captcha counter\<close>

















section \<open>The captcha attempts of one pass\<close>

lemma fetch_tokens_append: "fetch_tokens (es @ fs) = fetch_tokens es @ fetch_tokens fs"
  by (induction es rule: fetch_tokens.induct) simp_all

lemma fetch_captcha_log:
  "fetch_captcha t w = Next r w1 \<Longrightarrow> log w1 = log w @ [CaptchaFetch t]"
  by (auto simp: fetch_captcha_def split: list.splits)

lemma fetch_captcha_log_Halt:
  "fetch_captcha t w = Halt h w1 \<Longrightarrow> w1 = w"
  by (auto simp: fetch_captcha_def split: list.splits)

lemma captcha_attempts_fetches:
  "\<exists>evs k. log (world_of (captcha_attempts xs tok w)) = log w @ evs
          \<and> fetch_tokens evs = replicate k tok \<and> k \<le> length xs
          \<and> (\<forall>w1. captcha_attempts xs tok w = Next None w1 \<longrightarrow> k = length xs)"
proof (induction xs arbitrary: w)
  case Nil
  have "log (world_of (captcha_attempts [] tok w)) = log w @ []
      \<and> fetch_tokens [] = replicate 0 tok \<and> 0 \<le> length ([]::nat list)
      \<and> (\<forall>w1. captcha_attempts [] tok w = Next None w1 \<longrightarrow> 0 = length ([]::nat list))"
    by simp
  then show ?case by blast
next
  case (Cons a xs)
  show ?case
  proof (cases "fetch_captcha tok w")
    case (Halt h w1)
    then have "w1 = w" by (rule fetch_captcha_log_Halt)
    with Halt have "log (world_of (captcha_attempts (a # xs) tok w)) = log w @ []
      \<and> fetch_tokens [] = replicate 0 tok \<and> 0 \<le> length (a # xs)
      \<and> (\<forall>w1. captcha_attempts (a # xs) tok w = Next None w1 \<longrightarrow> 0 = length (a # xs))"
      by simp
    then show ?thesis by blast
  next
    case (Next r w1)
    then have l1: "log w1 = log w @ [CaptchaFetch tok]" by (rule fetch_captcha_log)
    have step: "\<exists>evs k. log (world_of (captcha_attempts (a # xs) tok w)) = log w @ evs
          \<and> fetch_tokens evs = replicate k tok \<and> k \<le> length (a # xs)
          \<and> (\<forall>w1. captcha_attempts (a # xs) tok w = Next None w1 \<longrightarrow> k = length (a # xs))"
      if eq: "captcha_attempts (a # xs) tok w = captcha_attempts xs tok w2"
        and l2: "log w2 = log w1 @ pre" and pre: "fetch_tokens pre = []" for w2 pre
    proof -
      from Cons.IH [of w2] obtain evs k where
        ih: "log (world_of (captcha_attempts xs tok w2)) = log w2 @ evs"
            "fetch_tokens evs = replicate k tok" "k \<le> length xs"
            "\<forall>w1. captcha_attempts xs tok w2 = Next None w1 \<longrightarrow> k = length xs"
        by blast
      have "log (world_of (captcha_attempts (a # xs) tok w)) =
              log w @ (CaptchaFetch tok # pre @ evs)"
        using eq ih(1) l1 l2 by simp
      moreover have "fetch_tokens (CaptchaFetch tok # pre @ evs) = replicate (Suc k) tok"
        using ih(2) pre by (simp add: fetch_tokens_append)
      moreover have "Suc k \<le> length (a # xs)"
        using ih(3) by simp
      moreover have "\<forall>w1. captcha_attempts (a # xs) tok w = Next None w1 \<longrightarrow>
          Suc k = length (a # xs)"
        using eq ih(4) by simp
      ultimately show ?thesis by blast
    qed
    show ?thesis
    proof (cases "bytes_in captcha_rate_marker (content r)")
      case True
      with Next have "captcha_attempts (a # xs) tok w =
          captcha_attempts xs tok (exponential_backoff 1 w1)"
        by simp
      moreover have "log (exponential_backoff 1 w1) = log w1 @ [Backoff 1]"
        by (simp add: exponential_backoff_def)
      ultimately show ?thesis
        by (rule step) simp
    next
      case False
      have again: ?thesis if "captcha_attempts (a # xs) tok w = captcha_attempts xs tok w1"
        using that by (rule step [where pre = "[]"]) simp_all
      show ?thesis
      proof (cases "payload r")
        case Malformed
        with Next False l1
        have "log (world_of (captcha_attempts (a # xs) tok w)) = log w @ [CaptchaFetch tok]
          \<and> fetch_tokens [CaptchaFetch tok] = replicate 1 tok \<and> 1 \<le> length (a # xs)
          \<and> (\<forall>w1. captcha_attempts (a # xs) tok w = Next None w1 \<longrightarrow> 1 = length (a # xs))"
          by simp
        then show ?thesis by blast
      next
        case NoBinaryValue
        with Next False show ?thesis by (intro again) simp
      next
        case (BinaryValue result)
        show ?thesis
        proof (cases result)
          case Nil
          with Next False BinaryValue show ?thesis by (intro again) simp
        next
          case (Cons answer others)
          with Next False BinaryValue l1
          have "log (world_of (captcha_attempts (a # xs) tok w)) = log w @ [CaptchaFetch tok]
            \<and> fetch_tokens [CaptchaFetch tok] = replicate 1 tok \<and> 1 \<le> length (a # xs)
            \<and> (\<forall>w1. captcha_attempts (a # xs) tok w = Next None w1 \<longrightarrow> 1 = length (a # xs))"
            by simp
          then show ?thesis by blast
        qed
      qed
    qed
  qed
qed

text \<open>
  C4, as it holds of the script.
  In one pass of the loop the captcha solver fetches at most 3
  captchas, all with the token of that pass. When all 3 attempts end without a
  candidate text, the pass requests a fresh token before anything else: it fetches
  nothing more, and it continues with the new token, exits with status 0 when there is
  none, or waits for the reply.
\<close>

theorem captcha_attempt_budget:
  "\<exists>evs k. log (world_of (captcha_attempts [0, 1, 2] tok w)) = log w @ evs
          \<and> fetch_tokens evs = replicate k tok \<and> k \<le> 3
          \<and> (\<forall>w1. captcha_attempts [0, 1, 2] tok w = Next None w1 \<longrightarrow>
                k = 3
                \<and> loop_body serial tok count w =
                    (case get_auth_token w1 of
                       Halt h w2 \<Rightarrow> Halt h w2
                     | Next None w2 \<Rightarrow> Halt (SysExit 0) w2
                     | Next (Some t) w2 \<Rightarrow> Next (Continue t count) w2))"
proof -
  from captcha_attempts_fetches [of "[0, 1, 2]" tok w] obtain evs k where
    f: "log (world_of (captcha_attempts [0, 1, 2] tok w)) = log w @ evs"
       "fetch_tokens evs = replicate k tok" "k \<le> length [0::nat, 1, 2]"
       "\<forall>w1. captcha_attempts [0, 1, 2] tok w = Next None w1 \<longrightarrow> k = length [0::nat, 1, 2]"
    by blast
  have "\<forall>w1. captcha_attempts [0, 1, 2] tok w = Next None w1 \<longrightarrow>
          k = 3
          \<and> loop_body serial tok count w =
              (case get_auth_token w1 of
                 Halt h w2 \<Rightarrow> Halt h w2
               | Next None w2 \<Rightarrow> Halt (SysExit 0) w2
               | Next (Some t) w2 \<Rightarrow> Next (Continue t count) w2)"
    using f(4) by (auto simp: loop_body_def simp del: captcha_attempts.simps)
  moreover have "k \<le> 3"
    using f(3) by simp
  ultimately show ?thesis
    using f(1,2) by blast
qed

theorem captcha_attempt_budget_witness:
  "captcha_attempts [0, 1, 2] ''T1'' three_unreadable =
     Next None (world_of (captcha_attempts [0, 1, 2] ''T1'' three_unreadable))
   \<and> fetch_tokens (log (world_of (captcha_attempts [0, 1, 2] ''T1'' three_unreadable))) =
       [''T1'', ''T1'', ''T1'']
   \<and> loop_body ''S'' ''T1'' 0 three_unreadable =
       Next (Continue ''T2'' 0)
         \<lparr>tokens = [], captchas = [], queries = [],
          log = [CaptchaFetch ''T1'', CaptchaFetch ''T1'', CaptchaFetch ''T1'',
                 TokenRequest (Some ''T2'')],
          rows = []\<rparr>"
proof -
  let ?w1 = "world_of (captcha_attempts [0, 1, 2] ''T1'' three_unreadable)"
  let ?w2 = "\<lparr>tokens = [], captchas = [], queries = [],
          log = [CaptchaFetch ''T1'', CaptchaFetch ''T1'', CaptchaFetch ''T1'',
                 TokenRequest (Some ''T2'')],
          rows = []\<rparr>"
  have ex: "captcha_attempts [0, 1, 2] ''T1'' three_unreadable = Next None ?w1"
    by code_simp
  have tk: "get_auth_token ?w1 = Next (Some ''T2'') ?w2"
    by code_simp
  have l0: "log three_unreadable = []"
    by (simp add: three_unreadable_def start_def)
  from captcha_attempt_budget [of "''T1''" three_unreadable "''S''" 0] obtain evs k where
    f: "log ?w1 = log three_unreadable @ evs" "fetch_tokens evs = replicate k ''T1''"
       "\<forall>w1. captcha_attempts [0, 1, 2] ''T1'' three_unreadable = Next None w1 \<longrightarrow>
          k = 3
          \<and> loop_body ''S'' ''T1'' 0 three_unreadable =
              (case get_auth_token w1 of
                 Halt h w2 \<Rightarrow> Halt h w2
               | Next None w2 \<Rightarrow> Halt (SysExit 0) w2
               | Next (Some t) w2 \<Rightarrow> Next (Continue t 0) w2)"
    by (elim exE conjE)
  from f(3) ex have k: "k = 3"
    and lb: "loop_body ''S'' ''T1'' 0 three_unreadable =
              (case get_auth_token ?w1 of
                 Halt h w2 \<Rightarrow> Halt h w2
               | Next None w2 \<Rightarrow> Halt (SysExit 0) w2
               | Next (Some t) w2 \<Rightarrow> Next (Continue t 0) w2)"
    by blast+
  have ft: "fetch_tokens (log ?w1) = [''T1'', ''T1'', ''T1'']"
    using f(1,2) k l0 by (simp add: numeral_3_eq_3 del: captcha_attempts.simps)
  have "loop_body ''S'' ''T1'' 0 three_unreadable = Next (Continue ''T2'' 0) ?w2"
    unfolding lb tk by simp
  with ft ex show ?thesis
    by (simp del: captcha_attempts.simps)
qed

text \<open>
  Over several passes more than 3 captchas are fetched with one token: after three
  rate-limited queries the fourth captcha is fetched with the token of the first.
\<close>

theorem four_fetches_on_one_token:
  "log (world_of (program [''S''] rate_limited_thrice)) =
     [TokenRequest (Some ''T''),
      CaptchaFetch ''T'', CoverageQuery ''T'' ''abcd'' ''S'', Backoff 1,
      CaptchaFetch ''T'', CoverageQuery ''T'' ''abcd'' ''S'', Backoff 1,
      CaptchaFetch ''T'', CoverageQuery ''T'' ''abcd'' ''S'', Backoff 1,
      CaptchaFetch ''T'', CoverageQuery ''T'' ''abcd'' ''S'']
   \<and> fetch_tokens (log (world_of (program [''S''] rate_limited_thrice))) =
       [''T'', ''T'', ''T'', ''T'']"
  by code_simp

section \<open>Counters and token refresh\<close>

text \<open>
  C8, evaluated where it fails. One invalid captcha on the first token, then three
  captchas without text: the token is refreshed, and the next invalid captcha, the
  first on the new token, is counted as the second. The pass that refreshes the token
  after exhausted attempts hands the counter on unchanged.
\<close>

theorem exhausted_refresh_keeps_invalid_count:
  "log (world_of (program [''S''] mismatch_then_unreadable)) =
     [TokenRequest (Some ''T1''),
      CaptchaFetch ''T1'', CoverageQuery ''T1'' ''abcd'' ''S'', InvalidCaptcha 1,
      CaptchaFetch ''T1'', CaptchaFetch ''T1'', CaptchaFetch ''T1'',
      TokenRequest (Some ''T2''),
      CaptchaFetch ''T2'', CoverageQuery ''T2'' ''abcd'' ''S'', InvalidCaptcha 2,
      CaptchaFetch ''T2'', CoverageQuery ''T2'' ''abcd'' ''S'']
   \<and> loop_body ''S'' ''T1'' 1 three_unreadable =
       Next (Continue ''T2'' 1) (world_of (loop_body ''S'' ''T1'' 1 three_unreadable))"
  by code_simp

section \<open>Field extraction on the coverage-detail branch\<close>





















end
